theory Spec2Isabelle
  imports Complex_Main
begin

section \<open>Dates, times and zones\<close>

text \<open>
  Python's \<^verbatim>\<open>datetime\<close> and \<^verbatim>\<open>timedelta\<close> count microseconds. A naive datetime is
  its wall-clock reading, as microseconds on an arbitrary but fixed calendar origin; an
  aware datetime carries the reading together with the UTC offset of the fixed-offset
  \<^verbatim>\<open>tzinfo\<close> instance that pytz attached to it. The year range of \<^verbatim>\<open>datetime\<close>
  (\<^verbatim>\<open>OverflowError\<close> outside the years 1 to 9999) is not modelled.
\<close>

type_synonym timedelta = int

type_synonym naive_datetime = int

record aware_datetime =
  wall :: int
  utcoff :: int

datatype datetime = Naive naive_datetime | Aware aware_datetime

text \<open>The instant an aware datetime denotes, as microseconds of UTC.\<close>

definition instant :: "aware_datetime \<Rightarrow> int" where
  "instant a = wall a - utcoff a"

text \<open>\<^verbatim>\<open>timedelta(days=d, hours=h, minutes=m)\<close>.\<close>

definition timedelta :: "int \<Rightarrow> int \<Rightarrow> int \<Rightarrow> timedelta" where
  "timedelta days hours minutes = ((days * 24 + hours) * 60 + minutes) * 60 * 1000000"

text \<open>
  A pytz zone: the offset it gives to a wall-clock reading (\<^verbatim>\<open>localize\<close>) and the offset
  in force at a UTC instant (\<^verbatim>\<open>datetime.now(tz)\<close>).
\<close>

record tzinfo =
  offset_of_local :: "int \<Rightarrow> int"
  offset_of_utc :: "int \<Rightarrow> int"

text \<open>
  \<^verbatim>\<open>tz.localize(dt)\<close> on a naive datetime: the reading is kept and tagged with the zone.
  Every call in the source is on a naive value (a row of a column without time zone, or
  behind a \<^verbatim>\<open>tzinfo is None\<close> test).
\<close>

definition localize :: "tzinfo \<Rightarrow> naive_datetime \<Rightarrow> aware_datetime" where
  "localize tz w = \<lparr>wall = w, utcoff = offset_of_local tz w\<rparr>"

text \<open>\<^verbatim>\<open>datetime.now(tz)\<close> at the UTC instant \<open>t\<close>.\<close>

definition now_in :: "tzinfo \<Rightarrow> int \<Rightarrow> aware_datetime" where
  "now_in tz t = \<lparr>wall = t + offset_of_utc tz t, utcoff = offset_of_utc tz t\<rparr>"

text \<open>\<^verbatim>\<open>dt - delta\<close>: the reading moves, the \<^verbatim>\<open>tzinfo\<close> stays.\<close>

fun dt_sub :: "datetime \<Rightarrow> timedelta \<Rightarrow> datetime" where
  "dt_sub (Naive w) d = Naive (w - d)"
| "dt_sub (Aware a) d = Aware (a\<lparr>wall := wall a - d\<rparr>)"

text \<open>\<^verbatim>\<open>if dt.tzinfo is None: dt = local_tz.localize(dt)\<close>.\<close>

fun ensure_aware :: "tzinfo \<Rightarrow> datetime \<Rightarrow> aware_datetime" where
  "ensure_aware tz (Naive w) = localize tz w"
| "ensure_aware tz (Aware a) = a"

text \<open>\<^verbatim>\<open>a > b\<close> on aware datetimes compares the instants.\<close>

definition aware_gt :: "aware_datetime \<Rightarrow> aware_datetime \<Rightarrow> bool" where
  "aware_gt a b = (instant b < instant a)"

section \<open>String formatting\<close>

text \<open>\<^verbatim>\<open>str\<close> of an integer, in decimal.\<close>

fun str_nat :: "nat \<Rightarrow> string" where
  "str_nat n =
     (if n < 10 then [''0123456789'' ! n]
      else str_nat (n div 10) @ [''0123456789'' ! (n mod 10)])"

declare str_nat.simps [simp del]

definition str_int :: "int \<Rightarrow> string" where
  "str_int i = (if i < 0 then CHR ''-'' # str_nat (nat (- i)) else str_nat (nat i))"

text \<open>\<^verbatim>\<open>"%02d"\<close> and \<^verbatim>\<open>"%06d"\<close> on a non-negative number: zero padding to a width.\<close>

definition zero_pad :: "nat \<Rightarrow> int \<Rightarrow> string" where
  "zero_pad w i = (let s = str_int i in replicate (w - length s) CHR ''0'' @ s)"

text \<open>
  \<^verbatim>\<open>str\<close> of a \<^verbatim>\<open>timedelta\<close>, which the job ids embed: the value is normalised to days,
  seconds within the day and microseconds (with floor division, so a negative delta has
  negative days and a non-negative rest), and printed as
  \<^verbatim>\<open>[D day[s], ]H:MM:SS[.UUUUUU]\<close>.
\<close>

definition str_timedelta :: "timedelta \<Rightarrow> string" where
  "str_timedelta td =
     (let days = td div 86400000000;
          seconds = (td mod 86400000000) div 1000000;
          microseconds = td mod 1000000;
          mm = seconds div 60; ss = seconds mod 60;
          hh = mm div 60; mm = mm mod 60;
          s = str_int hh @ '':'' @ zero_pad 2 mm @ '':'' @ zero_pad 2 ss;
          s = (if days \<noteq> 0
               then str_int days @ '' day'' @ (if \<bar>days\<bar> \<noteq> 1 then ''s'' else '''') @ '', '' @ s
               else s);
          s = (if microseconds \<noteq> 0 then s @ ''.'' @ zero_pad 6 microseconds else s)
      in s)"

section \<open>Errors, rows and the state of the bot\<close>

datatype error =
    StorageFault
  | StringDataRightTruncation
  | ForeignKeyViolation
  | DeliveryError
  | ConflictingIdError

text \<open>
  The tables of \<^verbatim>\<open>create_tables\<close>. An event row is polymorphic in its datetime:
  the table holds naive values, \<^verbatim>\<open>get_upcoming_events\<close> hands out aware ones. A row of
  \<^verbatim>\<open>notifications\<close> is its key (event id, user id, notification type); the serial id and
  \<^verbatim>\<open>sent_at\<close> take no part in any operation. The ranges of the integer columns are not
  modelled.
\<close>

record user_row =
  user_id :: int
  phone_number :: string
  first_name :: string
  last_name :: string
  registered_at :: naive_datetime

record 'dt event_row =
  event_id :: int
  title :: string
  description :: string
  photo_id :: string
  event_datetime :: 'dt
  created_at :: naive_datetime
  created_by :: int

type_synonym notification_row = "int \<times> int \<times> string"

text \<open>What the transport delivers: the three captions and the three plain texts.\<close>

datatype message =
    EventReminder string string string string
  | NewEventCreated string string datetime string
  | UpcomingEvent string string naive_datetime string
  | NoUpcomingEvents
  | WelcomeEvents nat
  | ErrorProcessingEvents

text \<open>A job of the scheduler: its id, its run date, the arguments of \<^verbatim>\<open>send_notification\<close>.\<close>

type_synonym job_args = "int \<times> string \<times> string \<times> string \<times> string"

record job =
  job_id :: string
  run_date :: aware_datetime
  args :: job_args

text \<open>The records of \<^verbatim>\<open>logging\<close>, one constructor for each call in the source.\<close>

datatype log_entry =
    Info_fetching_events int
  | Info_current_time naive_datetime
  | Info_found_events nat int
  | Info_event_found int string naive_datetime
  | Info_recorded_notification int int string
  | Error_recording_notification error
  | Info_notification_sent int int
  | Error_failed_to_send int error
  | Error_failed_to_process int error
  | Info_creation_notification_sent int
  | Error_failed_creation_notification int error
  | Info_scheduled int aware_datetime
  | Error_failed_to_schedule error
  | Info_starting_for_new_user int
  | Info_retrieved_events nat int
  | Info_no_upcoming_events int
  | Info_sent_welcome int
  | Info_processing_event int int
  | Info_sent_event_details int int
  | Info_recorded_initial int int
  | Info_scheduled_for_user string int int aware_datetime
  | Error_processing_event int int error
  | Error_new_user int error

record state =
  users :: "user_row list"
  events :: "naive_datetime event_row list"
  notifications :: "notification_row list"
  event_seq :: int
  jobs :: "job list"
  outbox :: "(int \<times> message) list"
  logged :: "log_entry list"

text \<open>
  What the code reads from outside: the clock, the offset of the zone of the process
  (naive \<^verbatim>\<open>datetime.now()\<close>), the zone of \<^verbatim>\<open>TIMEZONE\<close>, whether the transport delivers
  to a chat, and whether the connection pool answers.
\<close>

record env =
  clock_utc :: int
  system_utcoffset :: int
  TIMEZONE :: tzinfo
  can_deliver :: "int \<Rightarrow> bool"
  db_available :: bool

type_synonym 'a result = "(error + 'a) \<times> state"

definition logging :: "log_entry \<Rightarrow> state \<Rightarrow> state" where
  "logging e s = s\<lparr>logged := logged s @ [e]\<rparr>"

section \<open>The transport\<close>

text \<open>\<^verbatim>\<open>bot.send_photo\<close> and \<^verbatim>\<open>bot.send_message\<close>: delivered and kept in the outbox, or raised.\<close>

definition send :: "env \<Rightarrow> int \<Rightarrow> message \<Rightarrow> state \<Rightarrow> unit result" where
  "send ev chat_id m s =
     (if can_deliver ev chat_id then (Inr (), s\<lparr>outbox := outbox s @ [(chat_id, m)]\<rparr>)
      else (Inl DeliveryError, s))"

section \<open>The database\<close>

text \<open>
  Assignment to a \<^verbatim>\<open>VARCHAR(n)\<close> column: a longer value is an error, unless all the
  characters beyond \<open>n\<close> are spaces, which are cut off.
\<close>

definition varchar :: "nat \<Rightarrow> string \<Rightarrow> error + string" where
  "varchar n v =
     (if length v \<le> n then Inr v
      else if list_all (\<lambda>c. c = CHR '' '') (drop n v) then Inr (take n v)
      else Inl StringDataRightTruncation)"

definition get_all_users :: "env \<Rightarrow> state \<Rightarrow> error + int list" where
  "get_all_users ev s =
     (if db_available ev then Inr (map user_id (users s)) else Inl StorageFault)"

text \<open>
  The \<^verbatim>\<open>INSERT ... ON CONFLICT (event_id, user_id, notification_type) DO NOTHING\<close> of
  \<^verbatim>\<open>record_notification\<close>: the value is first fitted to \<^verbatim>\<open>VARCHAR(20)\<close>; a row with the
  key skips the insertion; a row that is inserted must reference an event and a user.
\<close>

definition insert_notification :: "env \<Rightarrow> state \<Rightarrow> int \<Rightarrow> int \<Rightarrow> string \<Rightarrow> error + state" where
  "insert_notification ev s eid uid ntype =
     (if \<not> db_available ev then Inl StorageFault
      else case varchar 20 ntype of
        Inl e \<Rightarrow> Inl e
      | Inr t \<Rightarrow>
          if (eid, uid, t) \<in> set (notifications s) then Inr s
          else if eid \<notin> set (map event_id (events s)) \<or> uid \<notin> set (map user_id (users s))
            then Inl ForeignKeyViolation
          else Inr (s\<lparr>notifications := notifications s @ [(eid, uid, t)]\<rparr>))"

definition record_notification :: "env \<Rightarrow> int \<Rightarrow> int \<Rightarrow> string \<Rightarrow> state \<Rightarrow> unit result" where
  "record_notification ev eid uid ntype s =
     (case insert_notification ev s eid uid ntype of
        Inr s' \<Rightarrow> (Inr (), logging (Info_recorded_notification eid uid ntype) s')
      | Inl e \<Rightarrow> (Inl e, logging (Error_recording_notification e) s))"

text \<open>
  \<^verbatim>\<open>create_event\<close>: an aware datetime is converted to UTC and stripped of its zone, a
  naive one is stored as it is. The row gets the next value of the sequence.
\<close>

definition create_event ::
  "env \<Rightarrow> string \<Rightarrow> string \<Rightarrow> string \<Rightarrow> datetime \<Rightarrow> int \<Rightarrow> state \<Rightarrow> int result" where
  "create_event ev ttl descr photo dt creator s =
     (let stored = (case dt of Aware a \<Rightarrow> wall a - utcoff a | Naive w \<Rightarrow> w) in
      if \<not> db_available ev then (Inl StorageFault, s)
      else case (varchar 200 ttl, varchar 200 photo) of
        (Inl e, _) \<Rightarrow> (Inl e, s)
      | (_, Inl e) \<Rightarrow> (Inl e, s)
      | (Inr t, Inr p) \<Rightarrow>
          if creator \<notin> set (map user_id (users s))
            then (Inl ForeignKeyViolation, s\<lparr>event_seq := event_seq s + 1\<rparr>)
          else
            (Inr (event_seq s + 1),
             s\<lparr>events := events s @
                  [\<lparr>event_id = event_seq s + 1, title = t, description = descr, photo_id = p,
                    event_datetime = stored, created_at = clock_utc ev, created_by = creator\<rparr>],
               event_seq := event_seq s + 1\<rparr>))"

text \<open>
  The loop at the end of \<^verbatim>\<open>get_upcoming_events\<close>, for one row: the stored datetime is
  passed to \<^verbatim>\<open>localize\<close> of the configured zone.
\<close>

definition localize_row :: "tzinfo \<Rightarrow> naive_datetime event_row \<Rightarrow> aware_datetime event_row" where
  "localize_row timezone row =
     \<lparr>event_id = event_id row, title = title row, description = description row,
      photo_id = photo_id row, event_datetime = localize timezone (event_datetime row),
      created_at = created_at row, created_by = created_by row\<rparr>"

text \<open>
  \<^verbatim>\<open>get_upcoming_events\<close>: the rows later than the naive UTC reading of the clock (and,
  with \<^verbatim>\<open>hours_ahead\<close>, not later than that many hours from it; the hours are taken as a
  rational number), in the order of their datetime.
\<close>

definition get_upcoming_events ::
  "env \<Rightarrow> rat option \<Rightarrow> state \<Rightarrow> error + aware_datetime event_row list" where
  "get_upcoming_events ev hours_ahead s =
     (let utc_now = clock_utc ev; timezone = TIMEZONE ev in
      if \<not> db_available ev then Inl StorageFault
      else
        let rows = (case hours_ahead of
                      Some h \<Rightarrow>
                        sort_key event_datetime
                          (filter (\<lambda>e. utc_now < event_datetime e \<and>
                                        event_datetime e \<le> utc_now + round (3600000000 * h))
                             (events s))
                    | None \<Rightarrow>
                        sort_key event_datetime
                          (filter (\<lambda>e. utc_now < event_datetime e) (events s)))
        in Inr (map (localize_row timezone) rows))"

text \<open>
  \<^verbatim>\<open>get_events_for_new_user\<close>: the distinct rows later than the naive reading of
  \<^verbatim>\<open>datetime.now()\<close>, the clock of the zone of the process, that have no
  \<^verbatim>\<open>initial_notification\<close> row for the user, in the order of their datetime.
\<close>

definition get_events_for_new_user ::
  "env \<Rightarrow> int \<Rightarrow> state \<Rightarrow> naive_datetime event_row list result" where
  "get_events_for_new_user ev uid s =
     (if \<not> db_available ev then (Inl StorageFault, s)
      else
        let s1 = logging (Info_fetching_events uid) s;
            current_time = clock_utc ev + system_utcoffset ev;
            s2 = logging (Info_current_time current_time) s1;
            rows = sort_key event_datetime
                     (remdups
                        (filter (\<lambda>e. current_time < event_datetime e \<and>
                                      (event_id e, uid, ''initial_notification'')
                                        \<notin> set (notifications s))
                           (events s)));
            s3 = logging (Info_found_events (length rows) uid) s2;
            s4 = fold (\<lambda>row. logging (Info_event_found (event_id row) (title row)
                                         (event_datetime row))) rows s3
        in (Inr rows, s4))"

section \<open>The job scheduler\<close>

text \<open>
  Modelled from the spec: the store of pending jobs of the job scheduler, which the bot
  takes from the APScheduler library and which is not among the sources. A job whose id
  is already present replaces the due time and the payload of the job with that id;
  otherwise it is added.
\<close>

definition put_job :: "job \<Rightarrow> job list \<Rightarrow> job list" where
  "put_job new js =
     (if job_id new \<in> set (map job_id js)
      then map (\<lambda>j. if job_id j = job_id new then new else j) js
      else js @ [new])"

text \<open>
  Modelled from the spec: \<^verbatim>\<open>schedule(jobId, dueAt, payload)\<close> of the job scheduler, which
  the source calls as \<^verbatim>\<open>scheduler.add_job(..., run_date, args, id, replace_existing)\<close>
  and which is not among the sources. If the due time is not strictly after now the call
  does nothing; otherwise the job is put into the store. The flag \<^verbatim>\<open>replace_existing\<close>
  is the one both callers pass as true; without it a present id is refused.
\<close>

definition add_job ::
  "env \<Rightarrow> aware_datetime \<Rightarrow> job_args \<Rightarrow> string \<Rightarrow> bool \<Rightarrow> job list \<Rightarrow> error + job list" where
  "add_job ev rd a i replace_existing js =
     (if \<not> clock_utc ev < instant rd then Inr js
      else if i \<in> set (map job_id js) \<and> \<not> replace_existing then Inl ConflictingIdError
      else Inr (put_job \<lparr>job_id = i, run_date = rd, args = a\<rparr> js))"

section \<open>The notification dispatcher\<close>

text \<open>The body of the loop of \<^verbatim>\<open>send_notification\<close>: one user, inside its own \<^verbatim>\<open>try\<close>.\<close>

definition send_notification_to ::
  "env \<Rightarrow> int \<Rightarrow> string \<Rightarrow> string \<Rightarrow> string \<Rightarrow> string \<Rightarrow> int \<Rightarrow> state \<Rightarrow> state" where
  "send_notification_to ev eid ttl descr photo ntype uid s =
     (case send ev uid (EventReminder photo ttl descr ntype) s of
        (Inl e, s1) \<Rightarrow> logging (Error_failed_to_send uid e) s1
      | (Inr _, s1) \<Rightarrow>
          (case record_notification ev eid uid ntype s1 of
             (Inl e, s2) \<Rightarrow> logging (Error_failed_to_send uid e) s2
           | (Inr _, s2) \<Rightarrow> logging (Info_notification_sent uid eid) s2))"

definition send_notification ::
  "env \<Rightarrow> int \<Rightarrow> string \<Rightarrow> string \<Rightarrow> string \<Rightarrow> string \<Rightarrow> state \<Rightarrow> unit result" where
  "send_notification ev eid ttl descr photo ntype s =
     (case get_all_users ev s of
        Inl e \<Rightarrow> (Inr (), logging (Error_failed_to_process eid e) s)
      | Inr us \<Rightarrow> (Inr (), fold (send_notification_to ev eid ttl descr photo ntype) us s))"

text \<open>The body of the loop of \<^verbatim>\<open>send_event_creation_notification\<close>.\<close>

definition send_event_creation_notification_to :: "env \<Rightarrow> message \<Rightarrow> int \<Rightarrow> state \<Rightarrow> state" where
  "send_event_creation_notification_to ev message_text uid s =
     (case send ev uid message_text s of
        (Inl e, s1) \<Rightarrow> logging (Error_failed_creation_notification uid e) s1
      | (Inr _, s1) \<Rightarrow> logging (Info_creation_notification_sent uid) s1)"

definition send_event_creation_notification ::
  "env \<Rightarrow> int \<Rightarrow> string \<Rightarrow> string \<Rightarrow> string \<Rightarrow> datetime \<Rightarrow> state \<Rightarrow> unit result" where
  "send_event_creation_notification ev eid ttl descr photo dt s =
     (case get_all_users ev s of
        Inl e \<Rightarrow> (Inl e, s)
      | Inr us \<Rightarrow>
          (Inr (),
           fold (send_event_creation_notification_to ev (NewEventCreated photo ttl dt descr))
             us s))"

section \<open>Scheduling the reminders\<close>

definition notification_times :: "(timedelta \<times> string) list" where
  "notification_times =
     [(timedelta 1 0 0, ''Event starts in 1 day''),
      (timedelta 0 6 0, ''Event starts in 6 hours''),
      (timedelta 0 1 0, ''Event starts in 1 hour''),
      (timedelta 0 0 15, ''Event starts in 15 minutes''),
      (timedelta 0 0 (- 15), ''Event started 15 minutes ago'')]"

text \<open>\<^verbatim>\<open>notification_time = event_datetime - time_delta\<close>, made aware if it is not.\<close>

definition notification_time :: "tzinfo \<Rightarrow> datetime \<Rightarrow> timedelta \<Rightarrow> aware_datetime" where
  "notification_time local_tz dt time_delta = ensure_aware local_tz (dt_sub dt time_delta)"

text \<open>The ids of the jobs of the two paths, as the f-strings build them.\<close>

definition event_job_id :: "int \<Rightarrow> timedelta \<Rightarrow> string" where
  "event_job_id eid time_delta =
     ''event_'' @ str_int eid @ ''_notification_'' @ str_timedelta time_delta"

definition user_job_id :: "int \<Rightarrow> int \<Rightarrow> timedelta \<Rightarrow> string" where
  "user_job_id eid uid time_delta =
     ''event_'' @ str_int eid @ ''_user_'' @ str_int uid @ ''_notification_''
       @ str_timedelta time_delta"

text \<open>The body of the loop of \<^verbatim>\<open>schedule_event_notifications\<close>.\<close>

definition schedule_offset ::
  "env \<Rightarrow> int \<Rightarrow> datetime \<Rightarrow> string \<Rightarrow> string \<Rightarrow> string \<Rightarrow> timedelta \<times> string \<Rightarrow> state \<Rightarrow> state"
  where
  "schedule_offset ev eid dt ttl descr photo nt s =
     (let local_tz = TIMEZONE ev; now = now_in local_tz (clock_utc ev);
          time_delta = fst nt; notification_text = snd nt;
          due = notification_time local_tz dt time_delta
      in if aware_gt due now then
           (case add_job ev due (eid, ttl, descr, photo, notification_text)
                   (event_job_id eid time_delta) True (jobs s) of
              Inr js \<Rightarrow> logging (Info_scheduled eid due) (s\<lparr>jobs := js\<rparr>)
            | Inl e \<Rightarrow> logging (Error_failed_to_schedule e) s)
         else s)"

definition schedule_event_notifications ::
  "env \<Rightarrow> int \<Rightarrow> datetime \<Rightarrow> string \<Rightarrow> string \<Rightarrow> string \<Rightarrow> state \<Rightarrow> state" where
  "schedule_event_notifications ev eid dt ttl descr photo s =
     (let event_datetime = Aware (ensure_aware (TIMEZONE ev) dt)
      in fold (schedule_offset ev eid event_datetime ttl descr photo) notification_times s)"

text \<open>
  The reminders of one event for a new user: the loop over the offsets stands in the
  \<^verbatim>\<open>try\<close> of the event, so an exception of \<^verbatim>\<open>add_job\<close> ends it.
\<close>

fun schedule_for_user ::
  "env \<Rightarrow> int \<Rightarrow> naive_datetime event_row \<Rightarrow> (timedelta \<times> string) list \<Rightarrow> state \<Rightarrow> unit result"
  where
  "schedule_for_user ev uid event [] s = (Inr (), s)"
| "schedule_for_user ev uid event (nt # rest) s =
     (let local_tz = TIMEZONE ev; now = now_in local_tz (clock_utc ev);
          time_delta = fst nt; notification_text = snd nt;
          due = notification_time local_tz (Naive (event_datetime event)) time_delta
      in if aware_gt due now then
           (case add_job ev due
                   (event_id event, title event, description event, photo_id event,
                    notification_text)
                   (user_job_id (event_id event) uid time_delta) True (jobs s) of
              Inl e \<Rightarrow> (Inl e, s)
            | Inr js \<Rightarrow>
                schedule_for_user ev uid event rest
                  (logging (Info_scheduled_for_user notification_text (event_id event) uid due)
                     (s\<lparr>jobs := js\<rparr>)))
         else schedule_for_user ev uid event rest s)"

text \<open>The body of the loop over the events of \<^verbatim>\<open>schedule_notifications_for_new_user\<close>.\<close>

definition process_event_for_user ::
  "env \<Rightarrow> int \<Rightarrow> naive_datetime event_row \<Rightarrow> state \<Rightarrow> state" where
  "process_event_for_user ev uid event s =
     (let s1 = logging (Info_processing_event (event_id event) uid) s in
      case send ev uid (UpcomingEvent (photo_id event) (title event) (event_datetime event)
                          (description event)) s1 of
        (Inl e, s2) \<Rightarrow> logging (Error_processing_event (event_id event) uid e) s2
      | (Inr _, s2) \<Rightarrow>
          (let s3 = logging (Info_sent_event_details (event_id event) uid) s2 in
           case record_notification ev (event_id event) uid ''initial_notification'' s3 of
             (Inl e, s4) \<Rightarrow> logging (Error_processing_event (event_id event) uid e) s4
           | (Inr _, s4) \<Rightarrow>
               (let s5 = logging (Info_recorded_initial (event_id event) uid) s4 in
                case schedule_for_user ev uid event notification_times s5 of
                  (Inl e, s6) \<Rightarrow> logging (Error_processing_event (event_id event) uid e) s6
                | (Inr _, s6) \<Rightarrow> s6)))"

text \<open>The outer \<^verbatim>\<open>except\<close>: the error is logged and the user is told, if that works.\<close>

definition new_user_failed :: "env \<Rightarrow> int \<Rightarrow> error \<Rightarrow> state \<Rightarrow> state" where
  "new_user_failed ev uid e s =
     snd (send ev uid ErrorProcessingEvents (logging (Error_new_user uid e) s))"

definition schedule_notifications_for_new_user :: "env \<Rightarrow> int \<Rightarrow> state \<Rightarrow> state" where
  "schedule_notifications_for_new_user ev uid s =
     (let s1 = logging (Info_starting_for_new_user uid) s in
      case get_events_for_new_user ev uid s1 of
        (Inl e, s2) \<Rightarrow> new_user_failed ev uid e s2
      | (Inr evs, s2) \<Rightarrow>
          (let s3 = logging (Info_retrieved_events (length evs) uid) s2 in
           if evs = [] then
             (case send ev uid NoUpcomingEvents (logging (Info_no_upcoming_events uid) s3) of
                (Inl e, s4) \<Rightarrow> new_user_failed ev uid e s4
              | (Inr _, s4) \<Rightarrow> s4)
           else
             (case send ev uid (WelcomeEvents (length evs)) s3 of
                (Inl e, s4) \<Rightarrow> new_user_failed ev uid e s4
              | (Inr _, s4) \<Rightarrow>
                  fold (process_event_for_user ev uid) evs (logging (Info_sent_welcome uid) s4))))"

section \<open>Examples\<close>

text \<open>
  A zone five hours ahead of UTC, as Asia/Almaty is; a clock at 04:00 UTC (09:00 there)
  of the day the readings are counted from; a store with users 7, 8 and 9 and one
  event, at 10:00 of the next day in that zone (05:00 UTC).
\<close>

definition hour :: int where
  "hour = 3600000000"

definition utc_plus_5 :: tzinfo where
  "utc_plus_5 = \<lparr>offset_of_local = (\<lambda>_. 5 * hour), offset_of_utc = (\<lambda>_. 5 * hour)\<rparr>"

definition example_env :: env where
  "example_env =
     \<lparr>clock_utc = 4 * hour, system_utcoffset = 5 * hour, TIMEZONE = utc_plus_5,
      can_deliver = (\<lambda>uid. uid \<noteq> 8), db_available = True\<rparr>"

definition example_user :: "int \<Rightarrow> user_row" where
  "example_user uid =
     \<lparr>user_id = uid, phone_number = ''+7'', first_name = ''A'', last_name = ''B'',
      registered_at = 0\<rparr>"

definition example_event :: "naive_datetime event_row" where
  "example_event =
     \<lparr>event_id = 1, title = ''Meetup'', description = ''Talks'', photo_id = ''photo'',
      event_datetime = 29 * hour, created_at = 0, created_by = 7\<rparr>"

definition example_state :: state where
  "example_state =
     \<lparr>users = [example_user 7, example_user 8, example_user 9], events = [example_event],
      notifications = [], event_seq = 1, jobs = [], outbox = [], logged = []\<rparr>"

section \<open>Properties of the scheduler\<close>

lemma instant_now_in: "instant (now_in tz t) = t"
  by (simp add: instant_def now_in_def)

lemma instant_notification_time_aware:
  "instant (notification_time tz (Aware a) d) = instant a - d"
  by (simp add: notification_time_def instant_def)

lemma add_job_replace:
  "add_job ev rd a i True js =
     Inr (if clock_utc ev < instant rd then put_job \<lparr>job_id = i, run_date = rd, args = a\<rparr> js
          else js)"
  by (simp add: add_job_def)

lemma filter_replace_other:
  "k \<noteq> job_id new \<Longrightarrow>
   filter (\<lambda>j. job_id j = k) (map (\<lambda>j. if job_id j = job_id new then new else j) js)
     = filter (\<lambda>j. job_id j = k) js"
  by (induction js) auto

lemma filter_put_job_other:
  "k \<noteq> job_id new \<Longrightarrow>
   filter (\<lambda>j. job_id j = k) (put_job new js) = filter (\<lambda>j. job_id j = k) js"
  by (simp add: put_job_def filter_replace_other)

lemma filter_map_replace:
  "distinct (map job_id js) \<Longrightarrow> job_id new \<in> set (map job_id js) \<Longrightarrow>
   filter (\<lambda>j. job_id j = job_id new)
     (map (\<lambda>j. if job_id j = job_id new then new else j) js) = [new]"
proof (induction js)
  case Nil
  then show ?case by simp
next
  case (Cons j js)
  show ?case
  proof (cases "job_id j = job_id new")
    case True
    with Cons.prems have "job_id new \<notin> set (map job_id js)" by simp
    then have "filter (\<lambda>j. job_id j = job_id new)
                 (map (\<lambda>j. if job_id j = job_id new then new else j) js) = []"
      by (induction js) auto
    with True show ?thesis by simp
  next
    case False
    with Cons show ?thesis by simp
  qed
qed

lemma filter_put_job_same:
  "distinct (map job_id js) \<Longrightarrow> filter (\<lambda>j. job_id j = job_id new) (put_job new js) = [new]"
proof (cases "job_id new \<in> set (map job_id js)")
  case True
  assume "distinct (map job_id js)"
  with True show ?thesis by (simp only: put_job_def if_True filter_map_replace)
next
  case False
  then have "filter (\<lambda>j. job_id j = job_id new) js = []"
    by (induction js) auto
  with False show ?thesis by (simp add: put_job_def)
qed

lemma map_job_id_replace:
  "map (job_id \<circ> (\<lambda>j. if job_id j = job_id new then new else j)) js = map job_id js"
  by (induction js) auto

lemma distinct_put_job:
  "distinct (map job_id js) \<Longrightarrow> distinct (map job_id (put_job new js))"
  by (simp add: put_job_def map_job_id_replace)

lemma distinct_add_job:
  "distinct (map job_id js) \<Longrightarrow> add_job ev rd a i replace_existing js = Inr js' \<Longrightarrow>
   distinct (map job_id js')"
  by (auto simp: add_job_def distinct_put_job split: if_splits)

lemma event_job_id_eq:
  "event_job_id eid d = event_job_id eid d' \<longleftrightarrow> str_timedelta d = str_timedelta d'"
  by (simp add: event_job_id_def)

lemma distinct_event_job_ids:
  "distinct (map (\<lambda>nt. event_job_id eid (fst nt)) notification_times)"
  by (simp add: notification_times_def event_job_id_eq)
   (simp add: str_timedelta_def timedelta_def str_int_def zero_pad_def str_nat.simps Let_def)

lemma jobs_schedule_offset:
  "jobs (schedule_offset ev eid (Aware a) ttl descr photo nt s) =
     (if clock_utc ev < instant a - fst nt
      then put_job \<lparr>job_id = event_job_id eid (fst nt),
                    run_date = notification_time (TIMEZONE ev) (Aware a) (fst nt),
                    args = (eid, ttl, descr, photo, snd nt)\<rparr> (jobs s)
      else jobs s)"
  by (simp add: schedule_offset_def Let_def aware_gt_def instant_now_in
        instant_notification_time_aware add_job_replace logging_def)

lemma distinct_jobs_schedule_offset:
  "distinct (map job_id (jobs s)) \<Longrightarrow>
   distinct (map job_id (jobs (schedule_offset ev eid (Aware a) ttl descr photo nt s)))"
  by (simp add: jobs_schedule_offset distinct_put_job)

lemma filter_jobs_fold_other:
  "k \<notin> set (map (\<lambda>nt. event_job_id eid (fst nt)) nts) \<Longrightarrow>
   filter (\<lambda>j. job_id j = k) (jobs (fold (schedule_offset ev eid (Aware a) ttl descr photo) nts s))
     = filter (\<lambda>j. job_id j = k) (jobs s)"
  by (induction nts arbitrary: s) (auto simp: jobs_schedule_offset filter_put_job_other)

lemma filter_jobs_fold_member:
  "distinct (map job_id (jobs s)) \<Longrightarrow> distinct (map (\<lambda>nt. event_job_id eid (fst nt)) nts) \<Longrightarrow>
   nt \<in> set nts \<Longrightarrow>
   filter (\<lambda>j. job_id j = event_job_id eid (fst nt))
       (jobs (fold (schedule_offset ev eid (Aware a) ttl descr photo) nts s))
     = (if clock_utc ev < instant a - fst nt
        then [\<lparr>job_id = event_job_id eid (fst nt),
                run_date = notification_time (TIMEZONE ev) (Aware a) (fst nt),
                args = (eid, ttl, descr, photo, snd nt)\<rparr>]
        else filter (\<lambda>j. job_id j = event_job_id eid (fst nt)) (jobs s))"
proof (induction nts arbitrary: s)
  case Nil
  then show ?case by simp
next
  case (Cons x nts)
  let ?s1 = "schedule_offset ev eid (Aware a) ttl descr photo x s"
  have d1: "distinct (map job_id (jobs ?s1))"
    using Cons.prems(1) by (rule distinct_jobs_schedule_offset)
  show ?case
  proof (cases "nt \<in> set nts")
    case True
    with Cons.prems have neq: "event_job_id eid (fst x) \<noteq> event_job_id eid (fst nt)"
      by force
    have "filter (\<lambda>j. job_id j = event_job_id eid (fst nt)) (jobs ?s1)
            = filter (\<lambda>j. job_id j = event_job_id eid (fst nt)) (jobs s)"
      using neq by (simp add: jobs_schedule_offset filter_put_job_other)
    moreover have "distinct (map (\<lambda>nt. event_job_id eid (fst nt)) nts)"
      using Cons.prems(2) by simp
    ultimately show ?thesis
      using Cons.IH [OF d1 _ True] by simp
  next
    case False
    with Cons.prems have x: "x = nt" by simp
    have notin: "event_job_id eid (fst nt) \<notin> set (map (\<lambda>nt. event_job_id eid (fst nt)) nts)"
      using Cons.prems(2) x by simp
    have "filter (\<lambda>j. job_id j = event_job_id eid (fst nt))
            (jobs (fold (schedule_offset ev eid (Aware a) ttl descr photo) nts ?s1))
          = filter (\<lambda>j. job_id j = event_job_id eid (fst nt)) (jobs ?s1)"
      using notin by (rule filter_jobs_fold_other)
    also have "\<dots> = (if clock_utc ev < instant a - fst nt
        then [\<lparr>job_id = event_job_id eid (fst nt),
                run_date = notification_time (TIMEZONE ev) (Aware a) (fst nt),
                args = (eid, ttl, descr, photo, snd nt)\<rparr>]
        else filter (\<lambda>j. job_id j = event_job_id eid (fst nt)) (jobs s))"
      using Cons.prems(1) filter_put_job_same [of "jobs s" "\<lparr>job_id = event_job_id eid (fst nt),
                run_date = notification_time (TIMEZONE ev) (Aware a) (fst nt),
                args = (eid, ttl, descr, photo, snd nt)\<rparr>"]
      by (simp add: x jobs_schedule_offset)
    finally show ?thesis by simp
  qed
qed

lemma jobs_fold_fresh:
  "distinct (map (\<lambda>nt. event_job_id eid (fst nt)) nts) \<Longrightarrow>
   set (map (\<lambda>nt. event_job_id eid (fst nt)) nts) \<inter> set (map job_id (jobs s)) = {} \<Longrightarrow>
   jobs (fold (schedule_offset ev eid (Aware a) ttl descr photo) nts s) =
     jobs s @ map (\<lambda>nt. \<lparr>job_id = event_job_id eid (fst nt),
                          run_date = notification_time (TIMEZONE ev) (Aware a) (fst nt),
                          args = (eid, ttl, descr, photo, snd nt)\<rparr>)
                (filter (\<lambda>nt. clock_utc ev < instant a - fst nt) nts)"
proof (induction nts arbitrary: s)
  case Nil
  then show ?case by simp
next
  case (Cons x nts)
  let ?s1 = "schedule_offset ev eid (Aware a) ttl descr photo x s"
  let ?new = "\<lparr>job_id = event_job_id eid (fst x),
                run_date = notification_time (TIMEZONE ev) (Aware a) (fst x),
                args = (eid, ttl, descr, photo, snd x)\<rparr>"
  have fresh: "event_job_id eid (fst x) \<notin> set (map job_id (jobs s))"
    using Cons.prems(2) by auto
  have j1: "jobs ?s1 = (if clock_utc ev < instant a - fst x then jobs s @ [?new] else jobs s)"
    using fresh by (simp add: jobs_schedule_offset put_job_def)
  have "set (map (\<lambda>nt. event_job_id eid (fst nt)) nts) \<inter> set (map job_id (jobs ?s1)) = {}"
    using Cons.prems by (auto simp: j1)
  moreover have "distinct (map (\<lambda>nt. event_job_id eid (fst nt)) nts)"
    using Cons.prems(1) by simp
  ultimately show ?case
    using Cons.IH [of ?s1] by (simp add: j1)
qed

text \<open>
  C3. When \<^verbatim>\<open>schedule_event_notifications\<close> runs on a store whose job ids are distinct,
  then for each offset of the table: if its due time is after now, the store holds
  afterwards exactly one job with the id of that offset, with that due time and the
  arguments of the event; if its due time is not after now, the jobs with that id are
  what they were before the call (nothing is enqueued for it).
\<close>

theorem schedule_event_notifications_future_only:
  assumes "distinct (map job_id (jobs s))"
    and "(time_delta, text) \<in> set notification_times"
  shows "let local_tz = TIMEZONE ev;
             due = notification_time local_tz (Aware (ensure_aware local_tz dt)) time_delta;
             now = now_in local_tz (clock_utc ev);
             i = event_job_id eid time_delta;
             s' = schedule_event_notifications ev eid dt ttl descr photo s
         in (aware_gt due now \<longrightarrow>
               filter (\<lambda>j. job_id j = i) (jobs s') =
                 [\<lparr>job_id = i, run_date = due, args = (eid, ttl, descr, photo, text)\<rparr>])
          \<and> (\<not> aware_gt due now \<longrightarrow>
               filter (\<lambda>j. job_id j = i) (jobs s') = filter (\<lambda>j. job_id j = i) (jobs s))"
  using filter_jobs_fold_member [OF assms(1) distinct_event_job_ids assms(2),
      of eid ev "ensure_aware (TIMEZONE ev) dt" ttl descr photo]
  by (simp add: Let_def schedule_event_notifications_def aware_gt_def instant_now_in
        instant_notification_time_aware)

theorem schedule_event_notifications_future_only_witness:
  "filter (\<lambda>j. job_id j = ''event_1_notification_0:15:00'')
     (jobs (schedule_event_notifications (example_env\<lparr>clock_utc := 4 * hour + 50 * 60000000 + 24 * hour\<rparr>) 1 (Naive (34 * hour))
        ''Meetup'' ''Talks'' ''photo'' example_state)) = [] \<and>
   filter (\<lambda>j. job_id j = ''event_1_notification_-1 day, 23:45:00'')
     (jobs (schedule_event_notifications (example_env\<lparr>clock_utc := 4 * hour + 50 * 60000000 + 24 * hour\<rparr>) 1 (Naive (34 * hour))
        ''Meetup'' ''Talks'' ''photo'' example_state)) =
     [\<lparr>job_id = ''event_1_notification_-1 day, 23:45:00'',
       run_date = \<lparr>wall = 34 * hour + 15 * 60000000, utcoff = 5 * hour\<rparr>,
       args = (1, ''Meetup'', ''Talks'', ''photo'', ''Event started 15 minutes ago'')\<rparr>]"
  using schedule_event_notifications_future_only
      [of example_state "timedelta 0 0 15" "''Event starts in 15 minutes''"
         "example_env\<lparr>clock_utc := 4 * hour + 50 * 60000000 + 24 * hour\<rparr>" "Naive (34 * hour)" 1 "''Meetup''" "''Talks''" "''photo''"]
    schedule_event_notifications_future_only
      [of example_state "timedelta 0 0 (-15)" "''Event started 15 minutes ago''"
         "example_env\<lparr>clock_utc := 4 * hour + 50 * 60000000 + 24 * hour\<rparr>" "Naive (34 * hour)" 1 "''Meetup''" "''Talks''" "''photo''"]
  by (simp add: example_state_def example_env_def utc_plus_5_def hour_def notification_times_def
        Let_def aware_gt_def instant_def now_in_def notification_time_def localize_def
        event_job_id_def str_timedelta_def timedelta_def str_int_def zero_pad_def str_nat.simps)


text \<open>
  C7. The due time of each reminder is the datetime of the event minus the offset of the
  table, so that the five due times are T - 1d, T - 6h, T - 1h, T - 15min and, for the
  negative offset of the last kind, T + 15min; and these are the run dates of the jobs
  that \<^verbatim>\<open>schedule_event_notifications\<close> enqueues on an empty store when all five are
  still to come.
\<close>

theorem reminder_due_times:
  "let T = instant (ensure_aware (TIMEZONE ev) dt) in
     map (\<lambda>nt. (snd nt, instant (notification_time (TIMEZONE ev)
                                   (Aware (ensure_aware (TIMEZONE ev) dt)) (fst nt))))
         notification_times =
       [(''Event starts in 1 day'', T - 86400000000),
        (''Event starts in 6 hours'', T - 21600000000),
        (''Event starts in 1 hour'', T - 3600000000),
        (''Event starts in 15 minutes'', T - 900000000),
        (''Event started 15 minutes ago'', T + 900000000)]
     \<and> (jobs s = [] \<and> clock_utc ev < T - 86400000000 \<longrightarrow>
          map (\<lambda>j. (snd (snd (snd (snd (args j)))), instant (run_date j)))
              (jobs (schedule_event_notifications ev eid dt ttl descr photo s)) =
            [(''Event starts in 1 day'', T - 86400000000),
             (''Event starts in 6 hours'', T - 21600000000),
             (''Event starts in 1 hour'', T - 3600000000),
             (''Event starts in 15 minutes'', T - 900000000),
             (''Event started 15 minutes ago'', T + 900000000)])"
proof -
  let ?a = "ensure_aware (TIMEZONE ev) dt"
  have table: "map (\<lambda>nt. (snd nt, instant (notification_time (TIMEZONE ev) (Aware ?a) (fst nt))))
         notification_times =
       [(''Event starts in 1 day'', instant ?a - 86400000000),
        (''Event starts in 6 hours'', instant ?a - 21600000000),
        (''Event starts in 1 hour'', instant ?a - 3600000000),
        (''Event starts in 15 minutes'', instant ?a - 900000000),
        (''Event started 15 minutes ago'', instant ?a + 900000000)]"
    by (simp add: notification_times_def instant_notification_time_aware timedelta_def)
  have sched: "map (\<lambda>j. (snd (snd (snd (snd (args j)))), instant (run_date j)))
              (jobs (schedule_event_notifications ev eid dt ttl descr photo s)) =
            [(''Event starts in 1 day'', instant ?a - 86400000000),
             (''Event starts in 6 hours'', instant ?a - 21600000000),
             (''Event starts in 1 hour'', instant ?a - 3600000000),
             (''Event starts in 15 minutes'', instant ?a - 900000000),
             (''Event started 15 minutes ago'', instant ?a + 900000000)]"
    if e: "jobs s = []" and c: "clock_utc ev < instant ?a - 86400000000"
  proof -
    have all: "filter (\<lambda>nt. clock_utc ev < instant ?a - fst nt) notification_times
                 = notification_times"
      using c by (simp add: notification_times_def timedelta_def)
    have "jobs (schedule_event_notifications ev eid dt ttl descr photo s) =
            map (\<lambda>nt. \<lparr>job_id = event_job_id eid (fst nt),
                          run_date = notification_time (TIMEZONE ev) (Aware ?a) (fst nt),
                          args = (eid, ttl, descr, photo, snd nt)\<rparr>) notification_times"
      using jobs_fold_fresh [OF distinct_event_job_ids, of eid s ev ?a ttl descr photo] e
      by (simp add: schedule_event_notifications_def all)
    then show ?thesis
      using table by (simp add: comp_def)
  qed
  show ?thesis
    using table sched by (simp add: Let_def)
qed

theorem reminder_due_times_witness:
  "map (\<lambda>j. (snd (snd (snd (snd (args j)))), instant (run_date j)))
      (jobs (schedule_event_notifications example_env 1 (Naive (34 * hour))
               ''Meetup'' ''Talks'' ''photo'' example_state)) =
     [(''Event starts in 1 day'', 5 * hour),
      (''Event starts in 6 hours'', 23 * hour),
      (''Event starts in 1 hour'', 28 * hour),
      (''Event starts in 15 minutes'', 29 * hour - 900000000),
      (''Event started 15 minutes ago'', 29 * hour + 900000000)]"
  using reminder_due_times [of example_env "Naive (34 * hour)" example_state 1
      "''Meetup''" "''Talks''" "''photo''"]
  by (simp add: example_env_def example_state_def utc_plus_5_def hour_def instant_def
        localize_def Let_def)

text \<open>
  C4. Scheduling the same job id twice, each time with a run date in the future of the
  call (as the guard of both callers ensures), leaves exactly one pending job with that id,
  and it carries the run date and the arguments of the later call.
\<close>

theorem add_job_twice_replaces:
  assumes "distinct (map job_id js)"
    and "clock_utc ev1 < instant rd1" and "clock_utc ev2 < instant rd2"
  shows "\<exists>js1 js2. add_job ev1 rd1 a1 i True js = Inr js1 \<and>
           add_job ev2 rd2 a2 i True js1 = Inr js2 \<and>
           filter (\<lambda>j. job_id j = i) js2 = [\<lparr>job_id = i, run_date = rd2, args = a2\<rparr>]"
proof -
  let ?j1 = "\<lparr>job_id = i, run_date = rd1, args = a1\<rparr>"
  let ?j2 = "\<lparr>job_id = i, run_date = rd2, args = a2\<rparr>"
  have d1: "distinct (map job_id (put_job ?j1 js))"
    using assms(1) by (rule distinct_put_job)
  have "filter (\<lambda>j. job_id j = job_id ?j2) (put_job ?j2 (put_job ?j1 js)) = [?j2]"
    using d1 by (rule filter_put_job_same)
  then show ?thesis
    using assms(2,3) by (simp add: add_job_replace)
qed

theorem add_job_twice_replaces_witness:
  "\<exists>js1 js2.
     add_job example_env \<lparr>wall = 28 * hour, utcoff = 5 * hour\<rparr>
       (1, ''Meetup'', ''Talks'', ''photo'', ''Event starts in 1 hour'')
       ''event_1_notification_1:00:00'' True [] = Inr js1 \<and>
     add_job (example_env\<lparr>clock_utc := 5 * hour\<rparr>) \<lparr>wall = 30 * hour, utcoff = 5 * hour\<rparr>
       (1, ''Meetup'', ''Music'', ''photo'', ''Event starts in 1 hour'')
       ''event_1_notification_1:00:00'' True js1 = Inr js2 \<and>
     filter (\<lambda>j. job_id j = ''event_1_notification_1:00:00'') js2 =
       [\<lparr>job_id = ''event_1_notification_1:00:00'',
         run_date = \<lparr>wall = 30 * hour, utcoff = 5 * hour\<rparr>,
         args = (1, ''Meetup'', ''Music'', ''photo'', ''Event starts in 1 hour'')\<rparr>]"
  using add_job_twice_replaces [of "[]" example_env "\<lparr>wall = 28 * hour, utcoff = 5 * hour\<rparr>"
      "example_env\<lparr>clock_utc := 5 * hour\<rparr>" "\<lparr>wall = 30 * hour, utcoff = 5 * hour\<rparr>"
      "(1, ''Meetup'', ''Talks'', ''photo'', ''Event starts in 1 hour'')"
      "''event_1_notification_1:00:00''"
      "(1, ''Meetup'', ''Music'', ''photo'', ''Event starts in 1 hour'')"]
  by (simp add: example_env_def instant_def hour_def)

section \<open>Properties of the event store\<close>

text \<open>
  C1, as stated: an event without an \<^verbatim>\<open>initial_notification\<close> row for the user would be
  returned whether or not its datetime has passed. It is not: the stored example event,
  unseen by user 9, is not returned once the clock has passed its datetime.
\<close>

theorem get_events_for_new_user_counterexample:
  "example_event \<in> set (events example_state) \<and>
   (event_id example_event, 9, ''initial_notification'') \<notin> set (notifications example_state) \<and>
   fst (get_events_for_new_user (example_env\<lparr>clock_utc := 30 * hour\<rparr>) 9 example_state) = Inr []"
  by (simp add: get_events_for_new_user_def example_state_def example_env_def example_event_def
        hour_def Let_def)

lemma get_events_for_new_user_rows:
  assumes "db_available ev"
  shows "\<exists>rows. fst (get_events_for_new_user ev uid s) = Inr rows \<and>
           set rows = {e \<in> set (events s).
                         clock_utc ev + system_utcoffset ev < event_datetime e \<and>
                         (event_id e, uid, ''initial_notification'') \<notin> set (notifications s)} \<and>
           sorted (map event_datetime rows) \<and> distinct rows"
  using assms by (auto simp: get_events_for_new_user_def Let_def)

text \<open>
  C1, amended. While the store answers, \<^verbatim>\<open>get_events_for_new_user\<close> returns, each once
  and in ascending order of their datetime, only stored events for which the user has no
  \<^verbatim>\<open>initial_notification\<close> row and whose datetime is still to come; and it returns every
  such event whose datetime is still to come. Whether the time is read as UTC or as the
  local time of the process is left open: an event is surely still to come when its
  datetime is later than both readings, and surely not when it is later than neither.
\<close>

theorem get_events_for_new_user_upcoming_unseen:
  assumes "db_available ev"
  shows "\<exists>rows. fst (get_events_for_new_user ev uid s) = Inr rows \<and>
           distinct rows \<and> sorted (map event_datetime rows) \<and>
           (\<forall>e \<in> set rows.
              e \<in> set (events s) \<and>
              (event_id e, uid, ''initial_notification'') \<notin> set (notifications s) \<and>
              min (clock_utc ev) (clock_utc ev + system_utcoffset ev) < event_datetime e) \<and>
           (\<forall>e \<in> set (events s).
              (event_id e, uid, ''initial_notification'') \<notin> set (notifications s) \<and>
              max (clock_utc ev) (clock_utc ev + system_utcoffset ev) < event_datetime e
              \<longrightarrow> e \<in> set rows)"
proof -
  from get_events_for_new_user_rows [OF assms, of uid s]
  obtain rows where r: "fst (get_events_for_new_user ev uid s) = Inr rows"
    and set_rows: "set rows = {e \<in> set (events s).
                         clock_utc ev + system_utcoffset ev < event_datetime e \<and>
                         (event_id e, uid, ''initial_notification'') \<notin> set (notifications s)}"
    and ord: "sorted (map event_datetime rows)" "distinct rows"
    by blast
  have "\<forall>e \<in> set rows.
              e \<in> set (events s) \<and>
              (event_id e, uid, ''initial_notification'') \<notin> set (notifications s) \<and>
              min (clock_utc ev) (clock_utc ev + system_utcoffset ev) < event_datetime e"
    by (auto simp: set_rows)
  moreover have "\<forall>e \<in> set (events s).
              (event_id e, uid, ''initial_notification'') \<notin> set (notifications s) \<and>
              max (clock_utc ev) (clock_utc ev + system_utcoffset ev) < event_datetime e
              \<longrightarrow> e \<in> set rows"
    by (auto simp: set_rows)
  ultimately show ?thesis
    using r ord by blast
qed

theorem get_events_for_new_user_upcoming_unseen_witness:
  "fst (get_events_for_new_user example_env 9 example_state) = Inr [example_event]"
  using get_events_for_new_user_upcoming_unseen [of example_env 9 example_state]
  by (simp add: get_events_for_new_user_def example_state_def example_env_def example_event_def
        hour_def Let_def)

lemma notifications_logging [simp]: "notifications (logging e s) = notifications s"
  by (simp add: logging_def)

lemma insert_notification_twice:
  "insert_notification ev s eid uid ntype = Inr s' \<Longrightarrow>
   \<exists>s''. insert_notification ev (logging l s') eid uid ntype = Inr s'' \<and> notifications s'' = notifications s'"
  by (auto simp: insert_notification_def logging_def split: if_splits sum.splits)

lemma insert_notification_logging_Inl:
  "insert_notification ev s eid uid ntype = Inl e \<Longrightarrow>
   insert_notification ev (logging l s) eid uid ntype = Inl e"
  by (auto simp: insert_notification_def logging_def split: if_splits sum.splits)

text \<open>
  C5. \<^verbatim>\<open>record_notification\<close> is idempotent: when a row with the key exists, the call
  succeeds and changes nothing but the log; every fault of the insertion is returned to
  the caller, again with nothing but the log changed; and a second call with the same
  arguments leaves the ledger as the first call left it.
\<close>

theorem record_notification_idempotent:
  "(db_available ev \<and> varchar 20 ntype = Inr t \<and> (eid, uid, t) \<in> set (notifications s) \<longrightarrow>
      record_notification ev eid uid ntype s
        = (Inr (), logging (Info_recorded_notification eid uid ntype) s))
   \<and> (insert_notification ev s eid uid ntype = Inl e \<longrightarrow>
        record_notification ev eid uid ntype s
          = (Inl e, logging (Error_recording_notification e) s))
   \<and> notifications (snd (record_notification ev eid uid ntype
                            (snd (record_notification ev eid uid ntype s))))
       = notifications (snd (record_notification ev eid uid ntype s))"
proof -
  have a: "record_notification ev eid uid ntype s
             = (Inr (), logging (Info_recorded_notification eid uid ntype) s)"
    if "db_available ev" "varchar 20 ntype = Inr t" "(eid, uid, t) \<in> set (notifications s)"
    using that by (simp add: record_notification_def insert_notification_def)
  have b: "record_notification ev eid uid ntype s
             = (Inl e, logging (Error_recording_notification e) s)"
    if "insert_notification ev s eid uid ntype = Inl e"
    using that by (simp add: record_notification_def)
  have c: "notifications (snd (record_notification ev eid uid ntype
                            (snd (record_notification ev eid uid ntype s))))
       = notifications (snd (record_notification ev eid uid ntype s))"
  proof (cases "insert_notification ev s eid uid ntype")
    case (Inl e)
    then show ?thesis
      by (simp add: record_notification_def insert_notification_logging_Inl)
  next
    case (Inr s')
    from insert_notification_twice [OF Inr, of "Info_recorded_notification eid uid ntype"]
    show ?thesis
      using Inr by (auto simp: record_notification_def)
  qed
  from a b c show ?thesis by blast
qed

theorem record_notification_idempotent_witness:
  "record_notification example_env 1 7 ''initial_notification''
      (example_state\<lparr>notifications := [(1, 7, ''initial_notification'')]\<rparr>)
     = (Inr (), logging (Info_recorded_notification 1 7 ''initial_notification'')
                  (example_state\<lparr>notifications := [(1, 7, ''initial_notification'')]\<rparr>))
   \<and> record_notification example_env 1 7 ''Event starts in 1 day'' example_state
     = (Inl StringDataRightTruncation,
        logging (Error_recording_notification StringDataRightTruncation) example_state)"
  using record_notification_idempotent [of example_env "''initial_notification''"
      "''initial_notification''" 1 7
      "example_state\<lparr>notifications := [(1, 7, ''initial_notification'')]\<rparr>"]
    record_notification_idempotent [of example_env "''Event starts in 1 day''" _ 1 7
      example_state StringDataRightTruncation]
  by (simp add: example_env_def example_state_def varchar_def insert_notification_def)

lemma tables_creation_loop:
  "notifications (fold (send_event_creation_notification_to ev m) us s) = notifications s \<and>
   events (fold (send_event_creation_notification_to ev m) us s) = events s"
  by (induction us arbitrary: s)
    (auto simp: send_event_creation_notification_to_def send_def logging_def)

lemma get_events_for_new_user_cong:
  "notifications s' = notifications s \<Longrightarrow> events s' = events s \<Longrightarrow>
   fst (get_events_for_new_user ev uid s') = fst (get_events_for_new_user ev uid s)"
  by (simp add: get_events_for_new_user_def Let_def)

text \<open>
  C9. The broadcast at the creation of an event writes no row of \<^verbatim>\<open>notifications\<close>:
  the ledger after \<^verbatim>\<open>send_event_creation_notification\<close> is the ledger before it, so
  \<^verbatim>\<open>get_events_for_new_user\<close> answers for every user as it did before, and a user who
  got the announcement still counts as not having seen the event.
\<close>

theorem send_event_creation_notification_keeps_ledger:
  "notifications (snd (send_event_creation_notification ev eid ttl descr photo dt s))
     = notifications s
   \<and> fst (get_events_for_new_user ev uid
            (snd (send_event_creation_notification ev eid ttl descr photo dt s)))
       = fst (get_events_for_new_user ev uid s)"
proof -
  let ?s' = "snd (send_event_creation_notification ev eid ttl descr photo dt s)"
  have "notifications ?s' = notifications s \<and> events ?s' = events s"
    by (cases "get_all_users ev s")
      (simp_all add: send_event_creation_notification_def tables_creation_loop)
  then show ?thesis
    using get_events_for_new_user_cong [of ?s' s ev uid] by simp
qed

theorem send_event_creation_notification_keeps_ledger_witness:
  "notifications (snd (send_event_creation_notification example_env 1 ''Meetup'' ''Talks''
       ''photo'' (Aware \<lparr>wall = 34 * hour, utcoff = 5 * hour\<rparr>) example_state)) = []
   \<and> map fst (outbox (snd (send_event_creation_notification example_env 1 ''Meetup'' ''Talks''
       ''photo'' (Aware \<lparr>wall = 34 * hour, utcoff = 5 * hour\<rparr>) example_state))) = [7, 9]
   \<and> fst (get_events_for_new_user example_env 7
        (snd (send_event_creation_notification example_env 1 ''Meetup'' ''Talks''
       ''photo'' (Aware \<lparr>wall = 34 * hour, utcoff = 5 * hour\<rparr>) example_state)))
      = Inr [example_event]"
  using send_event_creation_notification_keeps_ledger [of example_env 1 "''Meetup''" "''Talks''"
       "''photo''" "Aware \<lparr>wall = 34 * hour, utcoff = 5 * hour\<rparr>" example_state 7]
  by (simp add: send_event_creation_notification_def send_event_creation_notification_to_def
        get_all_users_def send_def logging_def get_events_for_new_user_def
        example_env_def example_state_def example_user_def example_event_def hour_def Let_def)

lemma localize_row_inj: "localize_row tz e = localize_row tz e' \<longleftrightarrow> e = e'"
  by (cases e, cases e') (auto simp: localize_row_def localize_def)

text \<open>
  C10. \<^verbatim>\<open>get_upcoming_events\<close> compares the stored datetimes with the UTC reading of
  the clock, \<^verbatim>\<open>get_events_for_new_user\<close> with the naive local reading of the process.
  For a stored event, unseen by the user, whose datetime lies between the two readings
  (after the earlier, not after the later), exactly one of the two returns it.
\<close>

theorem upcoming_clocks_disagree:
  assumes "db_available ev" and "e \<in> set (events s)"
    and "(event_id e, uid, ''initial_notification'') \<notin> set (notifications s)"
    and "min (clock_utc ev) (clock_utc ev + system_utcoffset ev) < event_datetime e"
    and "event_datetime e \<le> max (clock_utc ev) (clock_utc ev + system_utcoffset ev)"
  shows "\<exists>upcoming unseen.
           get_upcoming_events ev None s = Inr upcoming \<and>
           fst (get_events_for_new_user ev uid s) = Inr unseen \<and>
           (localize_row (TIMEZONE ev) e \<in> set upcoming) \<noteq> (e \<in> set unseen)"
proof -
  have up: "get_upcoming_events ev None s =
          Inr (map (localize_row (TIMEZONE ev))
                 (sort_key event_datetime (filter (\<lambda>e. clock_utc ev < event_datetime e) (events s))))"
    using assms(1) by (simp add: get_upcoming_events_def Let_def)
  obtain unseen where un: "fst (get_events_for_new_user ev uid s) = Inr unseen"
    and set_un: "set unseen = {e \<in> set (events s).
                         clock_utc ev + system_utcoffset ev < event_datetime e \<and>
                         (event_id e, uid, ''initial_notification'') \<notin> set (notifications s)}"
    using assms(1) by (auto simp: get_events_for_new_user_def Let_def)
  have "localize_row (TIMEZONE ev) e \<in> set (map (localize_row (TIMEZONE ev))
                 (sort_key event_datetime (filter (\<lambda>e. clock_utc ev < event_datetime e) (events s))))
        \<longleftrightarrow> clock_utc ev < event_datetime e"
    using assms(2) by (auto simp: localize_row_inj)
  moreover have "e \<in> set unseen \<longleftrightarrow> clock_utc ev + system_utcoffset ev < event_datetime e"
    using assms(2,3) by (simp add: set_un)
  moreover have "(clock_utc ev < event_datetime e)
                   \<noteq> (clock_utc ev + system_utcoffset ev < event_datetime e)"
    using assms(4,5) by (auto simp: min_def max_def split: if_splits)
  ultimately show ?thesis
    using up un by simp
qed

theorem upcoming_clocks_disagree_witness:
  "get_upcoming_events (example_env\<lparr>clock_utc := 26 * hour\<rparr>) None example_state
     = Inr [localize_row utc_plus_5 example_event] \<and>
   fst (get_events_for_new_user (example_env\<lparr>clock_utc := 26 * hour\<rparr>) 9 example_state) = Inr []"
  using upcoming_clocks_disagree [of "example_env\<lparr>clock_utc := 26 * hour\<rparr>" example_event
      example_state 9]
  by (simp add: get_upcoming_events_def get_events_for_new_user_def example_state_def
        example_env_def example_event_def hour_def Let_def)

section \<open>Properties of the dispatcher\<close>

text \<open>
  What holds of \<^verbatim>\<open>send_notification\<close> for every batch: it returns normally, it tries
  every user, and when the notification type fits the column and the event exists, the
  ledger gains a row for exactly the users the transport delivered to. The labels that
  the scheduler passes as notification type are all longer than the column is wide, and
  for them the ledger gains nothing.
\<close>

lemma send_notification_no_exception:
  "fst (send_notification ev eid ttl descr photo ntype s) = Inr ()"
  by (simp add: send_notification_def split: sum.splits)

lemma send_notification_to_tables:
  "users (send_notification_to ev eid ttl descr photo ntype uid s) = users s \<and>
   events (send_notification_to ev eid ttl descr photo ntype uid s) = events s"
  by (auto simp: send_notification_to_def send_def record_notification_def logging_def
        insert_notification_def split: sum.splits if_splits)

lemma send_notification_to_outbox:
  "outbox (send_notification_to ev eid ttl descr photo ntype uid s) =
     (if can_deliver ev uid then outbox s @ [(uid, EventReminder photo ttl descr ntype)]
      else outbox s)"
  by (auto simp: send_notification_to_def send_def record_notification_def logging_def
        insert_notification_def split: sum.splits if_splits)

lemma send_notification_to_ledger:
  assumes "db_available ev" and "length ntype \<le> 20"
    and "eid \<in> set (map event_id (events s))" and "uid \<in> set (map user_id (users s))"
  shows "set (notifications (send_notification_to ev eid ttl descr photo ntype uid s)) =
           set (notifications s) \<union> (if can_deliver ev uid then {(eid, uid, ntype)} else {})"
  using assms
  by (auto simp: send_notification_to_def send_def record_notification_def logging_def
        insert_notification_def varchar_def split: sum.splits if_splits)

lemma send_notification_to_overlong:
  assumes "varchar 20 ntype = Inl e"
  shows "notifications (send_notification_to ev eid ttl descr photo ntype uid s) = notifications s"
  using assms
  by (auto simp: send_notification_to_def send_def record_notification_def logging_def
        insert_notification_def split: sum.splits if_splits)

lemma fold_send_notification_to_outbox:
  "outbox (fold (send_notification_to ev eid ttl descr photo ntype) us s) =
     outbox s @ map (\<lambda>uid. (uid, EventReminder photo ttl descr ntype)) (filter (can_deliver ev) us)"
  by (induction us arbitrary: s) (simp_all add: send_notification_to_outbox)

lemma fold_send_notification_to_tables:
  "users (fold (send_notification_to ev eid ttl descr photo ntype) us s) = users s \<and>
   events (fold (send_notification_to ev eid ttl descr photo ntype) us s) = events s"
  by (induction us arbitrary: s) (simp_all add: send_notification_to_tables)

lemma fold_send_notification_to_ledger:
  assumes "db_available ev" and "length ntype \<le> 20"
  shows "eid \<in> set (map event_id (events s)) \<Longrightarrow> set us \<subseteq> set (map user_id (users s)) \<Longrightarrow>
         set (notifications (fold (send_notification_to ev eid ttl descr photo ntype) us s)) =
           set (notifications s) \<union> {(eid, uid, ntype) |uid. uid \<in> set us \<and> can_deliver ev uid}"
proof (induction us arbitrary: s)
  case Nil
  then show ?case by simp
next
  case (Cons u us)
  let ?s1 = "send_notification_to ev eid ttl descr photo ntype u s"
  have u: "u \<in> set (map user_id (users s))"
    using Cons.prems(2) by simp
  have step: "set (notifications ?s1) =
           set (notifications s) \<union> (if can_deliver ev u then {(eid, u, ntype)} else {})"
    using assms Cons.prems(1) u by (rule send_notification_to_ledger)
  have "eid \<in> set (map event_id (events ?s1))" "set us \<subseteq> set (map user_id (users ?s1))"
    using Cons.prems by (simp_all add: send_notification_to_tables)
  then have "set (notifications (fold (send_notification_to ev eid ttl descr photo ntype) us ?s1)) =
           set (notifications ?s1) \<union> {(eid, uid, ntype) |uid. uid \<in> set us \<and> can_deliver ev uid}"
    by (rule Cons.IH)
  then show ?case
    using step by auto
qed

lemma fold_send_notification_to_overlong:
  "varchar 20 ntype = Inl e \<Longrightarrow>
   notifications (fold (send_notification_to ev eid ttl descr photo ntype) us s) = notifications s"
  by (induction us arbitrary: s) (simp_all add: send_notification_to_overlong)

lemma send_notification_attempts_every_user:
  "db_available ev \<Longrightarrow>
   outbox (snd (send_notification ev eid ttl descr photo ntype s)) =
     outbox s @ map (\<lambda>uid. (uid, EventReminder photo ttl descr ntype))
                  (filter (can_deliver ev) (map user_id (users s)))"
  by (simp add: send_notification_def get_all_users_def fold_send_notification_to_outbox)

lemma send_notification_records_iff_delivered:
  assumes "db_available ev" and "length ntype \<le> 20" and "eid \<in> set (map event_id (events s))"
  shows "set (notifications (snd (send_notification ev eid ttl descr photo ntype s))) =
           set (notifications s) \<union>
           {(eid, uid, ntype) |uid. uid \<in> set (map user_id (users s)) \<and> can_deliver ev uid}"
  using fold_send_notification_to_ledger [OF assms(1,2), of eid s "map user_id (users s)" ttl descr photo] assms(1,3)
  by (simp add: send_notification_def get_all_users_def)

lemma varchar_reminder_texts:
  "nt \<in> set notification_times \<Longrightarrow> varchar 20 (snd nt) = Inl StringDataRightTruncation"
  by (auto simp: notification_times_def varchar_def)

lemma send_notification_never_records_reminders:
  assumes "nt \<in> set notification_times"
  shows "notifications (snd (send_notification ev eid ttl descr photo (snd nt) s)) = notifications s"
  using varchar_reminder_texts [OF assms]
  by (cases "get_all_users ev s")
    (simp_all add: send_notification_def logging_def fold_send_notification_to_overlong)

text \<open>
  C2, at a reminder of the table: delivery to user 8 of three fails and is logged, the
  batch goes on, and no exception leaves \<^verbatim>\<open>send_notification\<close>; but users 7 and 9, to
  whom the photo was delivered, get no row in \<^verbatim>\<open>notifications\<close>: the label
  \<^verbatim>\<open>Event starts in 1 day\<close> has 21 characters, the insertion into the column
  \<^verbatim>\<open>notification_type VARCHAR(20)\<close> raises, and the \<^verbatim>\<open>except\<close> of the loop logs it as a
  failure to send.
\<close>

theorem send_notification_reminder_not_recorded:
  "send_notification example_env 1 ''Meetup'' ''Talks'' ''photo'' ''Event starts in 1 day''
      example_state
     = (Inr (),
        example_state
          \<lparr>outbox := [(7, EventReminder ''photo'' ''Meetup'' ''Talks'' ''Event starts in 1 day''),
                      (9, EventReminder ''photo'' ''Meetup'' ''Talks'' ''Event starts in 1 day'')],
           logged := [Error_recording_notification StringDataRightTruncation,
                      Error_failed_to_send 7 StringDataRightTruncation,
                      Error_failed_to_send 8 DeliveryError,
                      Error_recording_notification StringDataRightTruncation,
                      Error_failed_to_send 9 StringDataRightTruncation]\<rparr>)
   \<and> notifications example_state = []"
  by (simp add: send_notification_def send_notification_to_def get_all_users_def send_def
        record_notification_def insert_notification_def varchar_def logging_def
        example_env_def example_state_def example_user_def)

section \<open>Properties of the round trip of the event datetime\<close>

lemma instant_localize_row:
  "instant (event_datetime (localize_row tz row)) =
     event_datetime row - offset_of_local tz (event_datetime row)"
  by (simp add: localize_row_def localize_def instant_def)

lemma create_event_stores_utc:
  "db_available ev \<Longrightarrow> length ttl \<le> 200 \<Longrightarrow> length photo \<le> 200 \<Longrightarrow>
   creator \<in> set (map user_id (users s)) \<Longrightarrow>
   create_event ev ttl descr photo (Aware d) creator s =
     (Inr (event_seq s + 1),
      s\<lparr>events := events s @
           [\<lparr>event_id = event_seq s + 1, title = ttl, description = descr, photo_id = photo,
             event_datetime = instant d, created_at = clock_utc ev, created_by = creator\<rparr>],
        event_seq := event_seq s + 1\<rparr>)"
  by (simp add: create_event_def varchar_def instant_def)

text \<open>
  C6, at an event created for 10:00 in a zone five hours ahead of UTC: the stored value is
  that instant as naive UTC (05:00), but \<^verbatim>\<open>get_upcoming_events\<close> tags the stored reading
  with the zone instead of converting it, and returns 05:00 in the zone, which is the
  instant 00:00 UTC, five hours before the instant the event was created with.
\<close>

theorem get_upcoming_events_shifts_instant:
  "create_event example_env ''Party'' ''Cake'' ''photo2''
      (Aware \<lparr>wall = 34 * hour, utcoff = 5 * hour\<rparr>) 7 (example_state\<lparr>events := []\<rparr>)
     = (Inr 2,
        example_state
          \<lparr>events := [\<lparr>event_id = 2, title = ''Party'', description = ''Cake'',
                       photo_id = ''photo2'', event_datetime = 29 * hour, created_at = 4 * hour,
                       created_by = 7\<rparr>],
           event_seq := 2\<rparr>)
   \<and> instant \<lparr>wall = 34 * hour, utcoff = 5 * hour\<rparr> = 29 * hour
   \<and> get_upcoming_events example_env None
        (snd (create_event example_env ''Party'' ''Cake'' ''photo2''
                (Aware \<lparr>wall = 34 * hour, utcoff = 5 * hour\<rparr>) 7
                (example_state\<lparr>events := []\<rparr>)))
       = Inr [\<lparr>event_id = 2, title = ''Party'', description = ''Cake'', photo_id = ''photo2'',
                event_datetime = \<lparr>wall = 29 * hour, utcoff = 5 * hour\<rparr>,
                created_at = 4 * hour, created_by = 7\<rparr>]
   \<and> instant \<lparr>wall = 29 * hour, utcoff = 5 * hour\<rparr> = 24 * hour"
  by (simp add: create_event_def get_upcoming_events_def localize_row_def localize_def
        varchar_def instant_def example_env_def example_state_def example_user_def
        utc_plus_5_def hour_def Let_def)


section \<open>Properties of the job ids of the two paths\<close>

lemma set_str_nat: "set (str_nat n) \<subseteq> set ''0123456789''"
proof (induction n rule: str_nat.induct)
  case (1 n)
  have digit: "''0123456789'' ! k \<in> set ''0123456789''" if "k < 10" for k :: nat
    using that by (intro nth_mem) simp
  show ?case
  proof (cases "n < 10")
    case True
    then show ?thesis
      using digit [of n] by (subst str_nat.simps) simp
  next
    case False
    have "n mod 10 < 10" by simp
    then have "''0123456789'' ! (n mod 10) \<in> set ''0123456789''" by (rule digit)
    moreover have "set (str_nat (n div 10)) \<subseteq> set ''0123456789''"
      using False by (intro "1.IH") simp
    ultimately show ?thesis
      using False by (subst str_nat.simps) simp
  qed
qed

lemma underscore_notin_str_int: "CHR ''_'' \<notin> set (str_int i)"
  using set_str_nat [of "nat i"] set_str_nat [of "nat (- i)"]
  by (auto simp: str_int_def)

lemma append_at_first_occurrence:
  "x \<notin> set xs \<Longrightarrow> x \<notin> set ys \<Longrightarrow> xs @ x # r = ys @ x # r' \<Longrightarrow> r = r'"
proof (induction xs arbitrary: ys)
  case Nil
  then show ?case by (cases ys) auto
next
  case (Cons a xs)
  then show ?case by (cases ys) auto
qed

lemma user_job_id_neq_event_job_id_any:
  "user_job_id eid uid k \<noteq> event_job_id eid' k'"
proof
  assume "user_job_id eid uid k = event_job_id eid' k'"
  then have eq: "str_int eid @ CHR ''_'' # (''user_'' @ str_int uid @ ''_notification_'' @ str_timedelta k)
             = str_int eid' @ CHR ''_'' # (''notification_'' @ str_timedelta k')"
    by (simp add: user_job_id_def event_job_id_def)
  have "''user_'' @ str_int uid @ ''_notification_'' @ str_timedelta k
             = ''notification_'' @ str_timedelta k'"
    using underscore_notin_str_int underscore_notin_str_int eq
    by (rule append_at_first_occurrence)
  then show False by simp
qed

lemma jobs_logging [simp]: "jobs (logging e s) = jobs s"
  by (simp add: logging_def)

lemma jobs_send [simp]: "jobs (snd (send ev uid m s)) = jobs s"
  by (simp add: send_def)

lemma jobs_record_notification [simp]:
  "jobs (snd (record_notification ev eid uid ntype s)) = jobs s"
  by (auto simp: record_notification_def insert_notification_def split: sum.splits if_splits)

lemma event_job_id_neq_job_of_user: "event_job_id eid k \<noteq> job_id \<lparr>job_id = user_job_id e uid d, run_date = r, args = a\<rparr>"
  using user_job_id_neq_event_job_id_any [of e uid d eid k] by auto

lemma schedule_for_user_keeps_event_jobs:
  "filter (\<lambda>j. job_id j = event_job_id eid k)
      (jobs (snd (schedule_for_user ev uid event nts s)))
     = filter (\<lambda>j. job_id j = event_job_id eid k) (jobs s)"
proof (induction nts arbitrary: s)
  case Nil
  then show ?case by simp
next
  case (Cons nt nts)
  let ?new = "\<lparr>job_id = user_job_id (event_id event) uid (fst nt),
       run_date = notification_time (TIMEZONE ev) (Naive (event_datetime event)) (fst nt),
       args = (event_id event, title event, description event, photo_id event, snd nt)\<rparr>"
  have *: "filter (\<lambda>j. job_id j = event_job_id eid k) (put_job ?new (jobs s))
          = filter (\<lambda>j. job_id j = event_job_id eid k) (jobs s)"
    by (rule filter_put_job_other) (rule event_job_id_neq_job_of_user)
  show ?case
  proof (cases "aware_gt (notification_time (TIMEZONE ev) (Naive (event_datetime event)) (fst nt))
                  (now_in (TIMEZONE ev) (clock_utc ev))")
    case True
    then have "clock_utc ev < instant (notification_time (TIMEZONE ev) (Naive (event_datetime event)) (fst nt))"
      by (simp add: aware_gt_def instant_now_in)
    with True show ?thesis
      by (simp add: Let_def add_job_replace Cons.IH logging_def *)
  next
    case False
    then show ?thesis
      by (simp add: Let_def Cons.IH)
  qed
qed

lemma process_event_for_user_keeps_event_jobs:
  "filter (\<lambda>j. job_id j = event_job_id eid k) (jobs (process_event_for_user ev uid event s))
     = filter (\<lambda>j. job_id j = event_job_id eid k) (jobs s)"
proof -
  let ?s1 = "logging (Info_processing_event (event_id event) uid) s"
  obtain r1 s2 where e1:
    "send ev uid (UpcomingEvent (photo_id event) (title event) (event_datetime event)
        (description event)) ?s1 = (r1, s2)"
    by (rule prod.exhaust)
  have j2: "jobs s2 = jobs s"
    using jobs_send [of ev uid "UpcomingEvent (photo_id event) (title event)
        (event_datetime event) (description event)" ?s1] e1 by (simp del: jobs_send)
  let ?s3 = "logging (Info_sent_event_details (event_id event) uid) s2"
  obtain r2 s4 where e2:
    "record_notification ev (event_id event) uid ''initial_notification'' ?s3 = (r2, s4)"
    by (rule prod.exhaust)
  have j4: "jobs s4 = jobs s"
    using jobs_record_notification [of ev "event_id event" uid "''initial_notification''" ?s3] e2 j2
    by (simp del: jobs_record_notification)
  let ?s5 = "logging (Info_recorded_initial (event_id event) uid) s4"
  obtain r3 s6 where e3: "schedule_for_user ev uid event notification_times ?s5 = (r3, s6)"
    by (rule prod.exhaust)
  have j6: "filter (\<lambda>j. job_id j = event_job_id eid k) (jobs s6)
              = filter (\<lambda>j. job_id j = event_job_id eid k) (jobs s)"
    using schedule_for_user_keeps_event_jobs [of eid k ev uid event notification_times ?s5] e3 j4
    by simp
  show ?thesis
    using e1 e2 e3 j2 j4 j6
    by (cases r1; cases r2; cases r3) (simp_all add: process_event_for_user_def)
qed

lemma fold_process_event_for_user_keeps_event_jobs:
  "filter (\<lambda>j. job_id j = event_job_id eid k)
      (jobs (fold (process_event_for_user ev uid) evs s))
     = filter (\<lambda>j. job_id j = event_job_id eid k) (jobs s)"
  by (induction evs arbitrary: s) (simp_all add: process_event_for_user_keeps_event_jobs)

lemma jobs_get_events_for_new_user [simp]:
  "jobs (snd (get_events_for_new_user ev uid s)) = jobs s"
proof -
  have "jobs (fold (\<lambda>row. logging (Info_event_found (event_id row) (title row)
                                         (event_datetime row))) rows s1) = jobs s1"
    for rows :: "naive_datetime event_row list" and s1
    by (induction rows arbitrary: s1) simp_all
  then show ?thesis
    by (simp add: get_events_for_new_user_def Let_def)
qed

lemma jobs_new_user_failed [simp]: "jobs (new_user_failed ev uid e s) = jobs s"
  by (simp add: new_user_failed_def)


lemma schedule_notifications_for_new_user_keeps_event_jobs:
  "filter (\<lambda>j. job_id j = event_job_id eid k)
      (jobs (schedule_notifications_for_new_user ev uid s))
     = filter (\<lambda>j. job_id j = event_job_id eid k) (jobs s)"
  by (simp add: schedule_notifications_for_new_user_def Let_def case_prod_beta
        fold_process_event_for_user_keeps_event_jobs split: sum.splits)

text \<open>
  C8. For an event, a user and an offset, the id of the job of the path for a new user
  differs from the id of the job of the path at the creation of the event (and from the
  id of every job of that path), so scheduling on either path leaves the job of the
  other path in the store as it was.
\<close>

theorem job_ids_of_the_two_paths_differ:
  "user_job_id eid uid k \<noteq> event_job_id eid k
   \<and> filter (\<lambda>j. job_id j = event_job_id eid k)
        (jobs (schedule_notifications_for_new_user ev uid s))
       = filter (\<lambda>j. job_id j = event_job_id eid k) (jobs s)
   \<and> filter (\<lambda>j. job_id j = user_job_id eid uid k)
        (jobs (schedule_event_notifications ev eid dt ttl descr photo s))
       = filter (\<lambda>j. job_id j = user_job_id eid uid k) (jobs s)"
proof -
  have "user_job_id eid uid k \<notin> set (map (\<lambda>nt. event_job_id eid (fst nt)) notification_times)"
    by (auto simp: user_job_id_neq_event_job_id_any)
  then show ?thesis
    by (simp add: user_job_id_neq_event_job_id_any
          schedule_notifications_for_new_user_keeps_event_jobs
          schedule_event_notifications_def filter_jobs_fold_other)
qed

end
